theory Spec2Isabelle
  imports Main
begin

section \<open>Strings, integers and their conversions\<close>

text \<open>
  The model is of \<^verbatim>\<open>scripts/manage_version.py\<close>. A Python \<^verbatim>\<open>str\<close> is modelled as a
  \<^typ>\<open>string\<close>; each \<^typ>\<open>char\<close> stands for the code point of the same number, so the
  model covers text whose code points lie in U+0000..U+00FF. Python integers are
  unbounded and modelled as \<^typ>\<open>int\<close> (the interpreter's configurable limit on the
  number of digits of a conversion is not part of the model).
\<close>

definition dquote :: char where
  "dquote = CHR 0x22"

definition newline :: char where
  "newline = CHR 0x0A"

definition backslash :: char where
  "backslash = CHR 0x5C"

definition is_digit :: "char \<Rightarrow> bool" where
  "is_digit c = (c \<in> set ''0123456789'')"

definition digit_val :: "char \<Rightarrow> nat" where
  "digit_val c = of_char c - 48"

definition digit_char :: "nat \<Rightarrow> char" where
  "digit_char d = ''0123456789'' ! d"

text \<open>
  The characters that \<^verbatim>\<open>int()\<close> skips at both ends of its argument: tab, line feed,
  vertical tab, form feed, carriage return, space, and (above U+007F) the Unicode
  spaces U+0085 and U+00A0. The separators U+001C..U+001F are not skipped by
  \<^verbatim>\<open>int()\<close>, although \<^verbatim>\<open>\s\<close> matches them.
\<close>

definition int_space :: "char \<Rightarrow> bool" where
  "int_space c = (c \<in> set [CHR 0x09, CHR 0x0A, CHR 0x0B, CHR 0x0C, CHR 0x0D, CHR 0x20,
                             CHR 0x85, CHR 0xA0])"

definition strip :: "string \<Rightarrow> string" where
  "strip s = rev (dropWhile int_space (rev (dropWhile int_space s)))"

text \<open>
  The digits of a base-10 literal of \<^verbatim>\<open>int()\<close>: one or more digits, where single
  underscores may stand between digits. The flag says that the previous character was
  a digit; the accumulator is the value read so far.
\<close>

fun int_digits :: "bool \<Rightarrow> nat \<Rightarrow> string \<Rightarrow> nat option" where
  "int_digits prev acc [] = (if prev then Some acc else None)"
| "int_digits prev acc (c # cs) =
     (if is_digit c then int_digits True (10 * acc + digit_val c) cs
      else if c = CHR ''_'' \<and> prev then int_digits False acc cs
      else None)"

text \<open>\<^verbatim>\<open>int(s)\<close>: \<open>None\<close> stands for the \<^verbatim>\<open>ValueError\<close> it raises.\<close>

definition py_int :: "string \<Rightarrow> int option" where
  "py_int s =
     (case strip s of
        [] \<Rightarrow> None
      | c # r \<Rightarrow>
          if c = CHR ''-'' then map_option (\<lambda>n. - int n) (int_digits False 0 r)
          else if c = CHR ''+'' then map_option int (int_digits False 0 r)
          else map_option int (int_digits False 0 (c # r)))"

text \<open>\<^verbatim>\<open>str(n)\<close> for a natural number, and for an integer (\<^verbatim>\<open>f"{n}"\<close>).\<close>

fun digits_of :: "nat \<Rightarrow> string" where
  "digits_of n = (if n < 10 then [digit_char n] else digits_of (n div 10) @ [digit_char (n mod 10)])"

declare digits_of.simps [simp del]

definition str_int :: "int \<Rightarrow> string" where
  "str_int i = (if i < 0 then CHR ''-'' # digits_of (nat (- i)) else digits_of (nat i))"

text \<open>
  \<^verbatim>\<open>f"{n:04d}"\<close>: the sign, then zeros up to a total width of four, then the digits;
  a longer numeral is not cut.
\<close>

definition zero_pad :: "nat \<Rightarrow> string \<Rightarrow> string" where
  "zero_pad w s = replicate (w - length s) CHR ''0'' @ s"

definition format_04d :: "int \<Rightarrow> string" where
  "format_04d i =
     (if i < 0 then CHR ''-'' # zero_pad 3 (digits_of (nat (- i)))
      else zero_pad 4 (digits_of (nat i)))"

text \<open>\<^verbatim>\<open>s.split(sep)\<close> for a separator of one character: never an empty list.\<close>

fun str_split :: "char \<Rightarrow> string \<Rightarrow> string list" where
  "str_split sep [] = [[]]"
| "str_split sep (c # cs) =
     (if c = sep then [] # str_split sep cs
      else (c # hd (str_split sep cs)) # tl (str_split sep cs))"

text \<open>\<^verbatim>\<open>sep.join(parts)\<close>, used to state properties of the lines of a file.\<close>

fun str_join :: "char \<Rightarrow> string list \<Rightarrow> string" where
  "str_join sep [] = []"
| "str_join sep [p] = p"
| "str_join sep (p # q # ps) = p @ sep # str_join sep (q # ps)"

section \<open>Errors\<close>

datatype path = VersionRs | CargoToml | VersionMd

text \<open>
  The exceptions of the script, one constructor for each place that raises:
  \<^item> \<open>CouldNotParseVersion\<close>: \<^verbatim>\<open>ValueError("Could not parse version from version.rs")\<close>;
  \<^item> \<open>InvalidVersionFormat v\<close>: \<^verbatim>\<open>ValueError(f"Invalid version format: {version}")\<close>;
  \<^item> \<open>InvalidLiteral s\<close>: the \<^verbatim>\<open>ValueError\<close> of \<^verbatim>\<open>int(s)\<close>;
  \<^item> \<open>InvalidBumpType t\<close>: \<^verbatim>\<open>ValueError(f"Invalid bump type: {bump_type}")\<close>;
  \<^item> \<open>FileNotFound f\<close>: \<^verbatim>\<open>read_text\<close> on a file that does not exist;
  \<^item> \<open>TemplateEscape r\<close>: the replacement string of \<^verbatim>\<open>re.sub\<close> contains a backslash
    (see \<open>re_sub\<close> below).
\<close>

datatype error =
    CouldNotParseVersion
  | InvalidVersionFormat string
  | InvalidLiteral string
  | InvalidBumpType string
  | FileNotFound path
  | TemplateEscape string

section \<open>Parsing and formatting a version\<close>

text \<open>
  \<^verbatim>\<open>parse_version\<close>: split on the dot, fail unless there are exactly three parts, then
  convert the parts with \<^verbatim>\<open>int\<close> from left to right.
\<close>

definition parse_version :: "string \<Rightarrow> error + (int \<times> int \<times> int)" where
  "parse_version version =
     (let parts = str_split CHR ''.'' version in
      if length parts \<noteq> 3 then Inl (InvalidVersionFormat version)
      else
        (case py_int (parts ! 0) of
           None \<Rightarrow> Inl (InvalidLiteral (parts ! 0))
         | Some major \<Rightarrow>
             (case py_int (parts ! 1) of
                None \<Rightarrow> Inl (InvalidLiteral (parts ! 1))
              | Some minor \<Rightarrow>
                  (case py_int (parts ! 2) of
                     None \<Rightarrow> Inl (InvalidLiteral (parts ! 2))
                   | Some patch \<Rightarrow> Inr (major, minor, patch)))))"

text \<open>\<^verbatim>\<open>f"{major}.{minor}.{patch}"\<close>\<close>

definition format_version :: "int \<Rightarrow> int \<Rightarrow> int \<Rightarrow> string" where
  "format_version major minor patch =
     str_int major @ ''.'' @ str_int minor @ ''.'' @ str_int patch"

section \<open>Regular expressions\<close>

text \<open>
  The three files are read and rewritten with \<^verbatim>\<open>re.search\<close> and \<^verbatim>\<open>re.sub\<close>. Every
  pattern of the script is a sequence of literal characters, the line anchor \<^verbatim>\<open>^\<close>
  (under \<^verbatim>\<open>re.MULTILINE\<close>) and greedy repetitions \<^verbatim>\<open>C+\<close> of a character class, so a
  pattern is modelled as a list of such items and matched as the backtracking engine
  of \<^verbatim>\<open>re\<close> does.
\<close>

datatype charclass =
    AnyBut char    \<comment> \<open>\<^verbatim>\<open>[^c]\<close>: any character but \<open>c\<close>, line feed included\<close>
  | Whitespace     \<comment> \<open>\<^verbatim>\<open>\s\<close>\<close>

datatype item =
    Lit char         \<comment> \<open>a literal character\<close>
  | Bol              \<comment> \<open>\<^verbatim>\<open>^\<close> with \<^verbatim>\<open>re.MULTILINE\<close>\<close>
  | Plus charclass   \<comment> \<open>\<^verbatim>\<open>C+\<close>, greedy\<close>

text \<open>The characters that \<^verbatim>\<open>\s\<close> matches in a \<^verbatim>\<open>str\<close> pattern.\<close>

definition re_space :: "char \<Rightarrow> bool" where
  "re_space c = (c \<in> set [CHR 0x09, CHR 0x0A, CHR 0x0B, CHR 0x0C, CHR 0x0D,
                            CHR 0x1C, CHR 0x1D, CHR 0x1E, CHR 0x1F, CHR 0x20,
                            CHR 0x85, CHR 0xA0])"

fun in_class :: "charclass \<Rightarrow> char \<Rightarrow> bool" where
  "in_class (AnyBut c) x = (x \<noteq> c)"
| "in_class Whitespace x = re_space x"

definition lits :: "string \<Rightarrow> item list" where
  "lits s = map Lit s"

text \<open>
  A match of a pattern at the start of the input: the texts taken by the \<open>Plus\<close>
  items, in order, and the input that is left. \<open>prev\<close> is the character before the
  input (\<open>None\<close> at the start of the string); \<^verbatim>\<open>^\<close> holds at the start of the string
  and after a line feed. A repetition first tries to take one more character and
  gives it back when the rest of the pattern fails.
\<close>

fun extend :: "char \<Rightarrow> string list \<times> string \<Rightarrow> string list \<times> string" where
  "extend x ([], r) = ([[x]], r)"
| "extend x (g # gs, r) = ((x # g) # gs, r)"

fun match_here :: "item list \<Rightarrow> char option \<Rightarrow> string \<Rightarrow> (string list \<times> string) option" where
  "match_here [] prev s = Some ([], s)"
| "match_here (Lit c # p) prev [] = None"
| "match_here (Lit c # p) prev (x # xs) =
     (if x = c then match_here p (Some x) xs else None)"
| "match_here (Bol # p) prev s =
     (if prev = None \<or> prev = Some newline then match_here p prev s else None)"
| "match_here (Plus k # p) prev [] = None"
| "match_here (Plus k # p) prev (x # xs) =
     (if in_class k x then
        (case match_here (Plus k # p) (Some x) xs of
           Some m \<Rightarrow> Some (extend x m)
         | None \<Rightarrow>
             (case match_here p (Some x) xs of
                Some (gs, r) \<Rightarrow> Some ([x] # gs, r)
              | None \<Rightarrow> None))
      else None)"

text \<open>\<^verbatim>\<open>re.search\<close>: the match at the leftmost position that has one.\<close>

fun re_search :: "item list \<Rightarrow> char option \<Rightarrow> string \<Rightarrow> (string list \<times> string) option" where
  "re_search p prev [] = match_here p prev []"
| "re_search p prev (x # xs) =
     (case match_here p prev (x # xs) of
        Some m \<Rightarrow> Some m
      | None \<Rightarrow> re_search p (Some x) xs)"

text \<open>
  \<^verbatim>\<open>re.sub\<close> with a replacement that is taken literally, and no count: every match,
  from left to right, is replaced, and the scan goes on behind the match. After an
  empty match the next character is copied.
\<close>

function re_sub_from :: "item list \<Rightarrow> string \<Rightarrow> char option \<Rightarrow> string \<Rightarrow> string" where
  "re_sub_from p repl prev [] =
     (case match_here p prev [] of Some m \<Rightarrow> repl | None \<Rightarrow> [])"
| "re_sub_from p repl prev (x # xs) =
     (case match_here p prev (x # xs) of
        None \<Rightarrow> x # re_sub_from p repl (Some x) xs
      | Some (gs, r) \<Rightarrow>
          if length r < Suc (length xs)
          then repl @ re_sub_from p repl (Some ((x # xs) ! (length xs - length r))) r
          else repl @ x # re_sub_from p repl (Some x) xs)"
  by pat_completeness auto
termination
  by (relation "measure (\<lambda>(p, repl, prev, s). length s)") auto

text \<open>
  \<^verbatim>\<open>re.sub(pattern, repl, string)\<close>. A replacement without a backslash is used as it
  is. One with a backslash is handed to the template compiler of \<^verbatim>\<open>re\<close>, before the
  string is searched; the compiler raises \<^verbatim>\<open>re.error\<close> on some escapes and expands
  the others. That compiler is not modelled: the model stops there with
  \<open>TemplateEscape\<close>. No replacement that \<open>bump\<close> builds contains a backslash.
\<close>

definition re_sub :: "item list \<Rightarrow> string \<Rightarrow> string \<Rightarrow> error + string" where
  "re_sub p repl s =
     (if backslash \<in> set repl then Inl (TemplateEscape repl)
      else Inr (re_sub_from p repl None s))"

subsection \<open>The patterns of the script\<close>

text \<open>\<^verbatim>\<open>pub const VERSION: &str = "([^"]+)"\<close>\<close>

definition version_pattern :: "item list" where
  "version_pattern =
     lits ''pub const VERSION: &str = '' @ [Lit dquote, Plus (AnyBut dquote), Lit dquote]"

text \<open>\<^verbatim>\<open>pub const BUILD: &str = "([^"]+)"\<close>\<close>

definition build_pattern :: "item list" where
  "build_pattern =
     lits ''pub const BUILD: &str = '' @ [Lit dquote, Plus (AnyBut dquote), Lit dquote]"

text \<open>\<^verbatim>\<open>^version = "[^"]+"\<close> with \<^verbatim>\<open>re.MULTILINE\<close>\<close>

definition cargo_pattern :: "item list" where
  "cargo_pattern =
     Bol # lits ''version = '' @ [Lit dquote, Plus (AnyBut dquote), Lit dquote]"

text \<open>\<^verbatim>\<open>## Current Version\s+- \*\*Version\*\*: [^\n]+\s+- \*\*Build\*\*: [^\n]+\<close>\<close>

definition md_pattern :: "item list" where
  "md_pattern =
     lits ''## Current Version'' @ [Plus Whitespace] @ lits ''- **Version**: ''
     @ [Plus (AnyBut newline), Plus Whitespace] @ lits ''- **Build**: ''
     @ [Plus (AnyBut newline)]"

section \<open>The files and the output\<close>

text \<open>
  The state of a run: the text of each of the three files (\<open>None\<close> for a file that
  does not exist) and the trace of what the run has done so far, in order: the files
  it has written, with the text written, and the lines it has printed.
\<close>

datatype message =
    Updated path                   \<comment> \<open>the line that confirms the update of a file\<close>
  | BumpHeader string              \<comment> \<open>\<^verbatim>\<open>Version Bump: {bump_type}\<close>\<close>
  | OldLine string string          \<comment> \<open>\<^verbatim>\<open>Old: v{old_version}-{old_build}\<close>\<close>
  | NewLine string string          \<comment> \<open>\<^verbatim>\<open>New: v{new_version}-{new_build}\<close>\<close>
  | BumpedSuccessfully             \<comment> \<open>the success banner\<close>
  | NextSteps string               \<comment> \<open>the four suggested commands, with the new version\<close>

datatype event = Write path string | Print message

record world =
  files :: "path \<Rightarrow> string option"
  trace :: "event list"

definition read_text :: "path \<Rightarrow> world \<Rightarrow> error + string" where
  "read_text f w = (case files w f of None \<Rightarrow> Inl (FileNotFound f) | Some content \<Rightarrow> Inr content)"

definition write_text :: "path \<Rightarrow> string \<Rightarrow> world \<Rightarrow> world" where
  "write_text f content w = w\<lparr>files := (files w)(f \<mapsto> content), trace := trace w @ [Write f content]\<rparr>"

definition print :: "message \<Rightarrow> world \<Rightarrow> world" where
  "print m w = w\<lparr>trace := trace w @ [Print m]\<rparr>"

text \<open>The files written between two states of one run, in order.\<close>

fun written :: "event list \<Rightarrow> path list" where
  "written [] = []"
| "written (Write f content # es) = f # written es"
| "written (Print m # es) = written es"

definition files_written :: "world \<Rightarrow> world \<Rightarrow> path list" where
  "files_written w w' = written (drop (length (trace w)) (trace w'))"

section \<open>VersionManager\<close>

text \<open>\<^verbatim>\<open>get_current_version\<close>: the first group of the first match of each pattern.\<close>

definition get_current_version :: "world \<Rightarrow> error + (string \<times> string)" where
  "get_current_version w =
     (case read_text VersionRs w of
        Inl e \<Rightarrow> Inl e
      | Inr content \<Rightarrow>
          (case (re_search version_pattern None content, re_search build_pattern None content) of
             (Some (version_groups, _), Some (build_groups, _)) \<Rightarrow>
               Inr (hd version_groups, hd build_groups)
           | _ \<Rightarrow> Inl CouldNotParseVersion))"

text \<open>
  \<^verbatim>\<open>bump_version\<close>: the stored pair is read and the version parsed before the bump type
  is looked at.
\<close>

definition bump_version :: "string \<Rightarrow> world \<Rightarrow> error + (string \<times> string)" where
  "bump_version bump_type w =
     (case get_current_version w of
        Inl e \<Rightarrow> Inl e
      | Inr (current_version, current_build) \<Rightarrow>
          (case parse_version current_version of
             Inl e \<Rightarrow> Inl e
           | Inr (major, minor, patch) \<Rightarrow>
               if bump_type = ''major'' then Inr (format_version (major + 1) 0 0, ''0001'')
               else if bump_type = ''minor'' then Inr (format_version major (minor + 1) 0, ''0001'')
               else if bump_type = ''patch'' then Inr (format_version major minor (patch + 1), ''0001'')
               else if bump_type = ''build'' then
                 (case py_int current_build of
                    None \<Rightarrow> Inl (InvalidLiteral current_build)
                  | Some build_num \<Rightarrow> Inr (current_version, format_04d (build_num + 1)))
               else Inl (InvalidBumpType bump_type)))"

definition update_version_rs :: "string \<Rightarrow> string \<Rightarrow> world \<Rightarrow> error + world" where
  "update_version_rs version build w =
     (case read_text VersionRs w of
        Inl e \<Rightarrow> Inl e
      | Inr content \<Rightarrow>
          (case re_sub version_pattern
                  (''pub const VERSION: &str = '' @ [dquote] @ version @ [dquote]) content of
             Inl e \<Rightarrow> Inl e
           | Inr content1 \<Rightarrow>
               (case re_sub build_pattern
                       (''pub const BUILD: &str = '' @ [dquote] @ build @ [dquote]) content1 of
                  Inl e \<Rightarrow> Inl e
                | Inr content2 \<Rightarrow>
                    Inr (print (Updated VersionRs) (write_text VersionRs content2 w)))))"

definition update_cargo_toml :: "string \<Rightarrow> world \<Rightarrow> error + world" where
  "update_cargo_toml version w =
     (case read_text CargoToml w of
        Inl e \<Rightarrow> Inl e
      | Inr content \<Rightarrow>
          (case re_sub cargo_pattern (''version = '' @ [dquote] @ version @ [dquote]) content of
             Inl e \<Rightarrow> Inl e
           | Inr content1 \<Rightarrow>
               Inr (print (Updated CargoToml) (write_text CargoToml content1 w))))"

definition update_version_md :: "string \<Rightarrow> string \<Rightarrow> world \<Rightarrow> error + world" where
  "update_version_md version build w =
     (case read_text VersionMd w of
        Inl e \<Rightarrow> Inl e
      | Inr content \<Rightarrow>
          (case re_sub md_pattern
                  (''## Current Version'' @ [newline, newline] @ ''- **Version**: '' @ version
                   @ [newline] @ ''- **Build**: '' @ build) content of
             Inl e \<Rightarrow> Inl e
           | Inr content1 \<Rightarrow>
               Inr (print (Updated VersionMd) (write_text VersionMd content1 w))))"

text \<open>
  \<^verbatim>\<open>bump\<close>: the result is the exception that ended the run, if any, and the state the
  run has left; an exception leaves the files written before it as they are.
\<close>

definition bump :: "string \<Rightarrow> world \<Rightarrow> error option \<times> world" where
  "bump bump_type w =
     (case get_current_version w of
        Inl e \<Rightarrow> (Some e, w)
      | Inr (old_version, old_build) \<Rightarrow>
          (case bump_version bump_type w of
             Inl e \<Rightarrow> (Some e, w)
           | Inr (new_version, new_build) \<Rightarrow>
               (let w1 = print (NewLine new_version new_build)
                           (print (OldLine old_version old_build)
                              (print (BumpHeader bump_type) w))
                in case update_version_rs new_version new_build w1 of
                     Inl e \<Rightarrow> (Some e, w1)
                   | Inr w2 \<Rightarrow>
                       (case (if new_version \<noteq> old_version
                              then update_cargo_toml new_version w2 else Inr w2) of
                          Inl e \<Rightarrow> (Some e, w2)
                        | Inr w3 \<Rightarrow>
                            (case update_version_md new_version new_build w3 of
                               Inl e \<Rightarrow> (Some e, w3)
                             | Inr w4 \<Rightarrow>
                                 (None, print (NextSteps new_version)
                                          (print BumpedSuccessfully w4)))))))"

section \<open>Notions used to state the properties\<close>

text \<open>The value of a string of decimal digits.\<close>

definition dec_val :: "string \<Rightarrow> nat" where
  "dec_val ds = foldl (\<lambda>a c. 10 * a + digit_val c) 0 ds"

text \<open>
  The characters that can occur in a string that \<^verbatim>\<open>int()\<close> accepts: digits, the two
  signs, the underscore and the spaces it skips.
\<close>

definition int_char :: "char \<Rightarrow> bool" where
  "int_char c = (is_digit c \<or> c = CHR ''+'' \<or> c = CHR ''-'' \<or> c = CHR ''_'' \<or> int_space c)"

text \<open>
  A canonical numeral is what \<^verbatim>\<open>str\<close> prints for an integer: digits without a
  superfluous leading zero, after a minus sign for a negative number.
\<close>

definition plain_numeral :: "string \<Rightarrow> bool" where
  "plain_numeral ds = (ds \<noteq> [] \<and> list_all is_digit ds \<and> (hd ds = CHR ''0'' \<longrightarrow> ds = ''0''))"

definition canonical :: "string \<Rightarrow> bool" where
  "canonical p =
     (case p of
        [] \<Rightarrow> False
      | c # r \<Rightarrow> if c = CHR ''-'' then plain_numeral r \<and> r \<noteq> ''0'' else plain_numeral p)"

text \<open>
  Texts and states used as concrete inputs: a \<^verbatim>\<open>version.rs\<close> with the two declarations,
  and the state in which only \<^verbatim>\<open>version.rs\<close> exists.
\<close>

definition version_rs_text :: "string \<Rightarrow> string \<Rightarrow> string" where
  "version_rs_text version build =
     ''pub const VERSION: &str = '' @ [dquote] @ version @ [dquote] @ '';'' @ [newline]
     @ ''pub const BUILD: &str = '' @ [dquote] @ build @ [dquote] @ '';'' @ [newline]"

definition only_version_rs :: "string \<Rightarrow> world" where
  "only_version_rs content = \<lparr>files = (\<lambda>f. None)(VersionRs \<mapsto> content), trace = []\<rparr>"

text \<open>A state with the three files, and one in which they agree on version 0.2.6, build 0007.\<close>

definition state_of :: "string \<Rightarrow> string \<Rightarrow> string \<Rightarrow> world" where
  "state_of rs toml md =
     \<lparr>files = (\<lambda>f. None)(VersionRs \<mapsto> rs, CargoToml \<mapsto> toml, VersionMd \<mapsto> md), trace = []\<rparr>"

definition sample_state :: world where
  "sample_state = state_of (version_rs_text ''0.2.6'' ''0007'')
     (''[package]'' @ [newline] @ ''version = '' @ [dquote] @ ''0.2.6'' @ [dquote] @ [newline])
     (''## Current Version'' @ [newline, newline] @ ''- **Version**: 0.2.6'' @ [newline]
      @ ''- **Build**: 0007'' @ [newline])"

(*LEMMAS*)
section \<open>Splitting and joining\<close>

lemma str_split_nonempty: "str_split sep s \<noteq> []"
  by (induction s) auto

lemma length_str_split: "length (str_split sep s) = Suc (count_list s sep)"
proof (induction s)
  case Nil
  show ?case by simp
next
  case (Cons c cs)
  have "length (tl (str_split sep cs)) = count_list cs sep"
    using Cons by simp
  then show ?case using Cons by simp
qed

lemma str_join_str_split: "str_join sep (str_split sep s) = s"
proof (induction s)
  case Nil
  show ?case by simp
next
  case (Cons c cs)
  obtain p ps where ps: "str_split sep cs = p # ps"
    using str_split_nonempty [of sep cs] by (cases "str_split sep cs") auto
  show ?case
  proof (cases "c = sep")
    case True
    then show ?thesis using Cons ps by simp
  next
    case False
    then show ?thesis using Cons ps by (cases ps) auto
  qed
qed

lemma str_split_no_sep: "sep \<notin> set s \<Longrightarrow> str_split sep s = [s]"
  by (induction s) auto

lemma str_split_append: "sep \<notin> set a \<Longrightarrow> str_split sep (a @ sep # b) = a # str_split sep b"
  by (induction a) auto

lemma str_split_parts_no_sep: "p \<in> set (str_split sep s) \<Longrightarrow> sep \<notin> set p"
proof (induction s arbitrary: p)
  case Nil
  then show ?case by simp
next
  case (Cons c cs)
  obtain q qs where qs: "str_split sep cs = q # qs"
    using str_split_nonempty [of sep cs] by (cases "str_split sep cs") auto
  have q: "sep \<notin> set q" and r: "\<And>x. x \<in> set qs \<Longrightarrow> sep \<notin> set x"
    using Cons.IH qs by auto
  show ?case using Cons.prems qs q r by (auto split: if_splits)
qed

lemma set_str_split: "set s \<subseteq> insert sep (\<Union> (set ` set (str_split sep s)))"
proof (induction s)
  case Nil
  show ?case by simp
next
  case (Cons c cs)
  obtain q qs where qs: "str_split sep cs = q # qs"
    using str_split_nonempty [of sep cs] by (cases "str_split sep cs") auto
  show ?case using Cons qs by auto
qed

section \<open>Decimal numerals\<close>

lemma dec_val_snoc: "dec_val (ds @ [c]) = 10 * dec_val ds + digit_val c"
  by (simp add: dec_val_def)

lemma int_digits_run:
  "list_all is_digit ds \<Longrightarrow>
   int_digits prev acc (ds @ rest) =
     int_digits (prev \<or> ds \<noteq> []) (foldl (\<lambda>a c. 10 * a + digit_val c) acc ds) rest"
  by (induction ds arbitrary: prev acc) auto

lemma int_digits_all_digits:
  "list_all is_digit ds \<Longrightarrow> ds \<noteq> [] \<Longrightarrow> int_digits prev 0 ds = Some (dec_val ds)"
  using int_digits_run [of ds prev 0 "[]"] by (simp add: dec_val_def)

lemma is_digit_digit_char: "d < 10 \<Longrightarrow> is_digit (digit_char d)"
proof -
  assume "d < 10"
  then have "d \<in> {0, 1, 2, 3, 4, 5, 6, 7, 8, 9}" by auto
  then show ?thesis by (auto simp: is_digit_def digit_char_def)
qed

lemma digit_val_digit_char: "d < 10 \<Longrightarrow> digit_val (digit_char d) = d"
proof -
  assume "d < 10"
  then have "d \<in> {0, 1, 2, 3, 4, 5, 6, 7, 8, 9}" by auto
  then show ?thesis by (auto simp: digit_val_def digit_char_def)
qed

lemma digit_char_digit_val: "is_digit c \<Longrightarrow> digit_char (digit_val c) = c"
  by (auto simp: is_digit_def digit_val_def digit_char_def)

lemma digit_val_less: "is_digit c \<Longrightarrow> digit_val c < 10"
  by (auto simp: is_digit_def digit_val_def)

lemma digit_val_zero: "is_digit c \<Longrightarrow> digit_val c = 0 \<longleftrightarrow> c = CHR ''0''"
  by (auto simp: is_digit_def digit_val_def)

lemma digits_of_digits: "list_all is_digit (digits_of n)"
proof (induction n rule: digits_of.induct)
  case (1 n)
  show ?case
  proof (cases "n < 10")
    case True
    then show ?thesis by (simp add: digits_of.simps [of n] is_digit_digit_char)
  next
    case False
    then show ?thesis using 1 by (simp add: digits_of.simps [of n] is_digit_digit_char)
  qed
qed

lemma digits_of_nonempty: "digits_of n \<noteq> []"
  by (simp add: digits_of.simps [of n])

lemma dec_val_digits_of: "dec_val (digits_of n) = n"
proof (induction n rule: digits_of.induct)
  case (1 n)
  show ?case
  proof (cases "n < 10")
    case True
    then show ?thesis by (simp add: digits_of.simps [of n] dec_val_def digit_val_digit_char)
  next
    case False
    then have "dec_val (digits_of (n div 10)) = n div 10" using 1 by simp
    then show ?thesis using False
      by (simp add: digits_of.simps [of n] dec_val_snoc digit_val_digit_char)
  qed
qed

lemma hd_digits_of: "hd (digits_of n) = CHR ''0'' \<Longrightarrow> n = 0"
proof (induction n rule: digits_of.induct)
  case (1 n)
  show ?case
  proof (cases "n < 10")
    case True
    then have "n \<in> {0, 1, 2, 3, 4, 5, 6, 7, 8, 9}" by auto
    then show ?thesis using "1.prems" by (auto simp: digits_of.simps [of n] digit_char_def)
  next
    case False
    then have "hd (digits_of n) = hd (digits_of (n div 10))"
      by (simp add: digits_of.simps [of n] digits_of_nonempty)
    then have "n div 10 = 0" using 1 False by simp
    then show ?thesis using False by simp
  qed
qed

lemma digits_of_zero: "digits_of 0 = ''0''"
  by (simp add: digits_of.simps [of 0] digit_char_def)

lemma digits_of_dec_val:
  "list_all is_digit ds \<Longrightarrow> ds \<noteq> [] \<Longrightarrow> hd ds \<noteq> CHR ''0'' \<Longrightarrow>
   0 < dec_val ds \<and> digits_of (dec_val ds) = ds"
proof (induction ds rule: rev_induct)
  case Nil
  then show ?case by simp
next
  case (snoc c ds)
  have c: "is_digit c" using snoc.prems by simp
  show ?case
  proof (cases "ds = []")
    case True
    then have "c \<noteq> CHR ''0''" using snoc.prems by simp
    then have "0 < digit_val c" using c digit_val_zero by auto
    then show ?thesis using True c
      by (simp add: dec_val_def digits_of.simps [of "digit_val c"] digit_val_less digit_char_digit_val)
  next
    case False
    then have "hd ds \<noteq> CHR ''0''" using snoc.prems by simp
    then have ih: "0 < dec_val ds" "digits_of (dec_val ds) = ds"
      using snoc False by simp_all
    have lt: "digit_val c < 10" using c by (rule digit_val_less)
    have "\<not> 10 * dec_val ds + digit_val c < 10" using ih by simp
    then have "digits_of (10 * dec_val ds + digit_val c) =
        digits_of ((10 * dec_val ds + digit_val c) div 10) @ [digit_char ((10 * dec_val ds + digit_val c) mod 10)]"
      by (simp add: digits_of.simps [of "10 * dec_val ds + digit_val c"])
    then show ?thesis using ih lt c by (simp add: dec_val_snoc digit_char_digit_val)
  qed
qed

section \<open>The conversion to an integer\<close>

lemma strip_id: "s \<noteq> [] \<Longrightarrow> \<not> int_space (hd s) \<Longrightarrow> \<not> int_space (last s) \<Longrightarrow> strip s = s"
proof -
  assume s: "s \<noteq> []" and h: "\<not> int_space (hd s)" and l: "\<not> int_space (last s)"
  have 1: "dropWhile int_space s = s" using s h by (cases s) auto
  have 2: "dropWhile int_space (rev s) = rev s"
    using s l by (simp add: dropWhile_eq_self_iff hd_rev)
  show ?thesis by (simp add: strip_def 1 2)
qed

lemma digit_not_space: "is_digit c \<Longrightarrow> \<not> int_space c"
  by (auto simp: is_digit_def int_space_def)

lemma digit_not_sign: "is_digit c \<Longrightarrow> c \<noteq> CHR ''-'' \<and> c \<noteq> CHR ''+'' \<and> c \<noteq> CHR ''_''"
  by (auto simp: is_digit_def)

lemma py_int_digits:
  assumes "list_all is_digit ds" and "ds \<noteq> []"
  shows "py_int ds = Some (int (dec_val ds))"
proof -
  obtain c r where cr: "ds = c # r" using assms(2) by (cases ds) auto
  have "is_digit (hd ds)" "is_digit (last ds)"
    using assms by (auto simp: list_all_iff)
  then have "strip ds = ds" using assms(2) by (simp add: strip_id digit_not_space)
  moreover have "c \<noteq> CHR ''-''" "c \<noteq> CHR ''+''" using assms(1) cr digit_not_sign by auto
  ultimately show ?thesis
    using int_digits_all_digits [OF assms, of False] cr by (simp add: py_int_def)
qed

lemma py_int_minus_digits:
  assumes "list_all is_digit ds" and "ds \<noteq> []"
  shows "py_int (CHR ''-'' # ds) = Some (- int (dec_val ds))"
proof -
  have "is_digit (last ds)" using assms by (auto simp: list_all_iff)
  then have "\<not> int_space (last (CHR ''-'' # ds))"
    using assms(2) by (simp add: digit_not_space)
  moreover have "\<not> int_space (hd (CHR ''-'' # ds))" by (simp add: int_space_def)
  ultimately have "strip (CHR ''-'' # ds) = CHR ''-'' # ds"
    by (intro strip_id) simp_all
  then show ?thesis
    using int_digits_all_digits [OF assms, of False] by (simp add: py_int_def)
qed

lemma py_int_str_int: "py_int (str_int i) = Some i"
proof (cases "i < 0")
  case True
  then show ?thesis
    using py_int_minus_digits [OF digits_of_digits digits_of_nonempty, of "nat (- i)"]
    by (simp add: str_int_def dec_val_digits_of)
next
  case False
  then show ?thesis
    using py_int_digits [OF digits_of_digits digits_of_nonempty, of "nat i"]
    by (simp add: str_int_def dec_val_digits_of)
qed

lemma plain_digits_of: "plain_numeral (digits_of n)"
  using hd_digits_of [of n] by (auto simp: plain_numeral_def digits_of_digits digits_of_nonempty digits_of_zero)

lemma canonical_str_int: "canonical (str_int i)"
proof (cases "i < 0")
  case True
  then have "digits_of (nat (- i)) \<noteq> ''0''"
    using dec_val_digits_of [of "nat (- i)"] by (auto simp: dec_val_def digit_val_def)
  then show ?thesis using True by (simp add: canonical_def str_int_def plain_digits_of)
next
  case False
  obtain c r where cr: "digits_of (nat i) = c # r"
    using digits_of_nonempty [of "nat i"] by (cases "digits_of (nat i)") auto
  have "is_digit c" using digits_of_digits [of "nat i"] cr by simp
  then have "c \<noteq> CHR ''-''" using digit_not_sign by auto
  then show ?thesis using False cr plain_digits_of [of "nat i"]
    by (simp add: canonical_def str_int_def)
qed

lemma plain_roundtrip:
  assumes "plain_numeral ds"
  shows "digits_of (dec_val ds) = ds"
proof (cases "hd ds = CHR ''0''")
  case True
  then have "ds = ''0''" using assms by (simp add: plain_numeral_def)
  then show ?thesis by (simp add: dec_val_def digit_val_def digits_of_zero)
next
  case False
  then show ?thesis using assms digits_of_dec_val [of ds] by (simp add: plain_numeral_def)
qed

lemma canonical_roundtrip:
  assumes "canonical p"
  shows "\<exists>i. py_int p = Some i \<and> str_int i = p"
proof -
  obtain c r where cr: "p = c # r" using assms by (cases p) (auto simp: canonical_def)
  show ?thesis
  proof (cases "c = CHR ''-''")
    case True
    then have pl: "plain_numeral r" and nz: "r \<noteq> ''0''"
      using assms cr by (auto simp: canonical_def)
    have d: "list_all is_digit r" "r \<noteq> []" using pl by (auto simp: plain_numeral_def)
    have "hd r \<noteq> CHR ''0''" using pl nz by (auto simp: plain_numeral_def)
    then have pos: "0 < dec_val r" using digits_of_dec_val [of r] d by simp
    have "py_int p = Some (- int (dec_val r))"
      using py_int_minus_digits [OF d] cr True by simp
    moreover have "str_int (- int (dec_val r)) = p"
      using pos plain_roundtrip [OF pl] cr True by (simp add: str_int_def)
    ultimately show ?thesis by blast
  next
    case False
    then have pl: "plain_numeral p" using assms cr by (simp add: canonical_def)
    have d: "list_all is_digit p" "p \<noteq> []" using pl by (auto simp: plain_numeral_def)
    have "py_int p = Some (int (dec_val p))" using py_int_digits [OF d] .
    moreover have "str_int (int (dec_val p)) = p"
      using plain_roundtrip [OF pl] by (simp add: str_int_def)
    ultimately show ?thesis by blast
  qed
qed

lemma int_digits_chars: "int_digits prev acc s = Some n \<Longrightarrow> \<forall>c\<in>set s. is_digit c \<or> c = CHR ''_''"
  by (induction s arbitrary: prev acc) (auto split: if_splits)

lemma int_digits_nonempty: "int_digits False acc s = Some n \<Longrightarrow> s \<noteq> []"
  by (cases s) auto

lemma set_strip: "set s \<subseteq> set (strip s) \<union> {c. int_space c}"
proof -
  have a: "set s \<subseteq> set (dropWhile int_space s) \<union> {c. int_space c}" for s
    by (induction s) auto
  have "set (dropWhile int_space s) \<subseteq> set (strip s) \<union> {c. int_space c}"
    using a [of "rev (dropWhile int_space s)"] by (simp add: strip_def)
  then show ?thesis using a [of s] by blast
qed

lemma strip_Nil: "strip [] = []"
  by (simp add: strip_def)

lemma py_int_chars:
  assumes "py_int s = Some i"
  shows "s \<noteq> [] \<and> (\<forall>c\<in>set s. int_char c)"
proof -
  obtain c r where cr: "strip s = c # r"
    using assms by (cases "strip s") (auto simp: py_int_def)
  have ne: "s \<noteq> []" using cr strip_Nil by auto
  have "\<forall>x\<in>set (c # r). int_char x"
  proof (cases "c = CHR ''-'' \<or> c = CHR ''+''")
    case True
    then obtain n where "int_digits False 0 r = Some n"
      using assms cr by (auto simp: py_int_def split: if_splits)
    then show ?thesis using True int_digits_chars [of False 0 r n] by (auto simp: int_char_def)
  next
    case False
    then obtain n where "int_digits False 0 (c # r) = Some n"
      using assms cr by (auto simp: py_int_def split: if_splits)
    then show ?thesis using int_digits_chars [of False 0 "c # r" n] by (auto simp: int_char_def)
  qed
  then have "\<forall>x\<in>set s. int_char x"
    using set_strip [of s] cr by (auto simp: int_char_def)
  then show ?thesis using ne by simp
qed

section \<open>Properties of \<open>parse_version\<close>\<close>

lemma digit_not_dot: "is_digit c \<Longrightarrow> c \<noteq> CHR ''.'' \<and> c \<noteq> backslash"
  by (auto simp: is_digit_def backslash_def)

lemma dot_notin_digits_of: "CHR ''.'' \<notin> set (digits_of n)"
  using digits_of_digits [of n] digit_not_dot by (auto simp: list_all_iff)

lemma backslash_notin_digits_of: "backslash \<notin> set (digits_of n)"
  using digits_of_digits [of n] digit_not_dot by (auto simp: list_all_iff)

lemma dot_notin_str_int: "CHR ''.'' \<notin> set (str_int i)"
  by (simp add: str_int_def dot_notin_digits_of)

lemma backslash_notin_str_int: "backslash \<notin> set (str_int i)"
  using backslash_notin_digits_of by (simp add: str_int_def backslash_def)

lemma str_split_format_version:
  "str_split CHR ''.'' (format_version a b c) = [str_int a, str_int b, str_int c]"
  by (simp add: format_version_def str_split_append str_split_no_sep dot_notin_str_int)

lemma parse_version_format_version: "parse_version (format_version a b c) = Inr (a, b, c)"
  by (simp add: parse_version_def str_split_format_version py_int_str_int)

lemma parse_version_parts:
  assumes "parse_version v = Inr (a, b, c)"
  shows "\<exists>p q r. str_split CHR ''.'' v = [p, q, r] \<and> py_int p = Some a \<and> py_int q = Some b
          \<and> py_int r = Some c"
proof -
  have len: "length (str_split CHR ''.'' v) = 3"
    using assms by (auto simp: parse_version_def Let_def split: if_splits)
  then obtain p q r where pqr: "str_split CHR ''.'' v = [p, q, r]"
    by (auto simp: length_Suc_conv numeral_3_eq_3)
  then show ?thesis using assms
    by (auto simp: parse_version_def Let_def split: option.splits)
qed

lemma three_join: "str_split CHR ''.'' v = [p, q, r] \<Longrightarrow> v = p @ ''.'' @ q @ ''.'' @ r"
  using str_join_str_split [of "CHR ''.''" v] by simp

text \<open>
  Claim C6, as amended. For a version string that \<open>parse_version\<close> accepts,
  formatting the parsed triple as \<^verbatim>\<open>"{major}.{minor}.{patch}"\<close> gives the string back
  exactly when each of its three components is a canonical numeral: decimal digits
  without a superfluous leading zero, or a minus sign before such digits of a number
  that is not zero. A component with a leading zero, a plus sign, an underscore or
  spaces around it is accepted by \<^verbatim>\<open>int()\<close> and printed differently.
\<close>

theorem format_parse_roundtrip_iff:
  assumes "parse_version v = Inr (major, minor, patch)"
  shows "format_version major minor patch = v
           \<longleftrightarrow> list_all canonical (str_split CHR ''.'' v)"
proof
  assume "format_version major minor patch = v"
  then have "str_split CHR ''.'' v = [str_int major, str_int minor, str_int patch]"
    using str_split_format_version by auto
  then show "list_all canonical (str_split CHR ''.'' v)"
    by (simp add: canonical_str_int)
next
  assume can: "list_all canonical (str_split CHR ''.'' v)"
  obtain p q r where pqr: "str_split CHR ''.'' v = [p, q, r]"
    and ints: "py_int p = Some major" "py_int q = Some minor" "py_int r = Some patch"
    using parse_version_parts [OF assms] by blast
  have "str_int major = p" "str_int minor = q" "str_int patch = r"
    using can pqr ints canonical_roundtrip [of p] canonical_roundtrip [of q]
      canonical_roundtrip [of r] by auto
  then show "format_version major minor patch = v"
    using three_join [OF pqr] by (simp add: format_version_def)
qed

theorem format_parse_roundtrip_iff_witness:
  "parse_version ''0.2.6'' = Inr (0, 2, 6) \<and> format_version 0 2 6 = ''0.2.6''
   \<and> list_all canonical (str_split CHR ''.'' ''0.2.6'')"
proof -
  have p: "parse_version ''0.2.6'' = Inr (0, 2, 6)" by code_simp
  have c: "list_all canonical (str_split CHR ''.'' ''0.2.6'')" by code_simp
  show ?thesis using format_parse_roundtrip_iff [OF p] p c by simp
qed

text \<open>
  Claim C6 as stated fails: \<^verbatim>\<open>"01.2.3"\<close> is accepted, parsed to \<open>(1, 2, 3)\<close>, and
  formatted as \<^verbatim>\<open>"1.2.3"\<close>.
\<close>

theorem roundtrip_counterexample:
  "parse_version ''01.2.3'' = Inr (1, 2, 3) \<and> format_version 1 2 3 = ''1.2.3''
   \<and> ''1.2.3'' \<noteq> ''01.2.3''"
  by code_simp

text \<open>
  Claim C7. A string splits on the dot into three components exactly when it
  contains two dots, and for every string that does not contain exactly two dots
  \<open>parse_version\<close> raises the format error with that string. The error is the one of
  the component count, also when the components are not numerals: no conversion has
  been tried.
\<close>

theorem parse_version_component_count:
  "(length (str_split CHR ''.'' version) \<noteq> 3 \<longleftrightarrow> count_list version CHR ''.'' \<noteq> 2)
   \<and> (count_list version CHR ''.'' \<noteq> 2
        \<longrightarrow> parse_version version = Inl (InvalidVersionFormat version))"
  by (simp add: length_str_split parse_version_def)

theorem parse_version_component_count_witness:
  "count_list ''1.2'' CHR ''.'' \<noteq> 2 \<and> parse_version ''1.2'' = Inl (InvalidVersionFormat ''1.2'')
   \<and> count_list ''1.2.3.4'' CHR ''.'' \<noteq> 2
   \<and> parse_version ''1.2.3.4'' = Inl (InvalidVersionFormat ''1.2.3.4'')
   \<and> count_list ''a.b'' CHR ''.'' \<noteq> 2 \<and> parse_version ''a.b'' = Inl (InvalidVersionFormat ''a.b'')"
  using parse_version_component_count [of "''1.2''"] parse_version_component_count [of "''1.2.3.4''"]
    parse_version_component_count [of "''a.b''"]
  by simp




section \<open>Properties of \<open>bump_version\<close>\<close>

lemma str_int_zero: "str_int 0 = ''0''"
  by (simp add: str_int_def digits_of_zero)

text \<open>
  Claim C1. When the stored version is parsed to \<open>(major, minor, patch)\<close>,
  \<open>bump_version\<close> returns, for \<^verbatim>\<open>"major"\<close>, the version \<open>(major+1).0.0\<close>, for
  \<^verbatim>\<open>"minor"\<close>, \<open>major.(minor+1).0\<close>, for \<^verbatim>\<open>"patch"\<close>, \<open>major.minor.(patch+1)\<close>, and in
  the three cases the build \<^verbatim>\<open>"0001"\<close>. (It holds for every parsed triple, so for the
  triples of non-negative integers.)
\<close>

theorem bump_version_rule_table:
  assumes "get_current_version w = Inr (version, build)"
    and "parse_version version = Inr (major, minor, patch)"
  shows "bump_version ''major'' w = Inr (str_int (major + 1) @ ''.0.0'', ''0001'')
       \<and> bump_version ''minor'' w = Inr (str_int major @ ''.'' @ str_int (minor + 1) @ ''.0'', ''0001'')
       \<and> bump_version ''patch'' w
           = Inr (str_int major @ ''.'' @ str_int minor @ ''.'' @ str_int (patch + 1), ''0001'')"
  using assms by (simp add: bump_version_def format_version_def str_int_zero)

theorem bump_version_rule_table_witness:
  "get_current_version (only_version_rs (version_rs_text ''1.9.9'' ''0007'')) = Inr (''1.9.9'', ''0007'')
   \<and> parse_version ''1.9.9'' = Inr (1, 9, 9)
   \<and> bump_version ''major'' (only_version_rs (version_rs_text ''1.9.9'' ''0007'')) = Inr (''2.0.0'', ''0001'')
   \<and> bump_version ''minor'' (only_version_rs (version_rs_text ''1.9.9'' ''0007'')) = Inr (''1.10.0'', ''0001'')
   \<and> bump_version ''patch'' (only_version_rs (version_rs_text ''1.9.9'' ''0007'')) = Inr (''1.9.10'', ''0001'')"
proof -
  have g: "get_current_version (only_version_rs (version_rs_text ''1.9.9'' ''0007'')) = Inr (''1.9.9'', ''0007'')"
    by code_simp
  have p: "parse_version ''1.9.9'' = Inr (1, 9, 9)" by code_simp
  have s: "str_int 2 = ''2''" "str_int 1 = ''1''" "str_int 9 = ''9''" "str_int 10 = ''10''"
    by code_simp+
  show ?thesis using bump_version_rule_table [OF g p] g p s by simp
qed

lemma dec_val_zeros: "dec_val (replicate k CHR ''0'' @ ds) = dec_val ds"
proof -
  have "foldl (\<lambda>a c. 10 * a + digit_val c) 0 (replicate k CHR ''0'') = 0"
    by (induction k) (simp_all add: digit_val_def)
  then show ?thesis by (simp add: dec_val_def)
qed

lemma zero_is_digit: "is_digit CHR ''0''"
  by (simp add: is_digit_def)

lemma zero_pad_digits: "list_all is_digit s \<Longrightarrow> list_all is_digit (zero_pad w s)"
  by (auto simp: zero_pad_def list_all_iff zero_is_digit)

lemma get_current_version_errors:
  "get_current_version w = Inl e \<Longrightarrow> e = FileNotFound VersionRs \<or> e = CouldNotParseVersion"
  by (auto simp: get_current_version_def read_text_def split: option.splits sum.splits prod.splits)

lemma length_zero_pad: "length (zero_pad w s) = max w (length s)"
  by (simp add: zero_pad_def)

lemma format_04d_nat: "format_04d (int n) = zero_pad 4 (digits_of n)"
  by (simp add: format_04d_def)

text \<open>
  Claim C2, as amended. When the stored version is one that \<open>parse_version\<close> accepts
  and the stored build is a decimal numeral, \<open>bump_version\<close> for \<^verbatim>\<open>"build"\<close> returns the
  version string as it is stored, and a build string of decimal digits whose value is
  the stored build plus one and whose length is four, or the number of digits of that
  value if it has more: \<^verbatim>\<open>"9999"\<close> gives \<^verbatim>\<open>"10000"\<close>.
\<close>

theorem bump_version_build:
  assumes "get_current_version w = Inr (version, build)"
    and "parse_version version = Inr t"
    and "build \<noteq> []" and "list_all is_digit build"
  shows "\<exists>r. bump_version ''build'' w = Inr (version, r)
           \<and> list_all is_digit r
           \<and> dec_val r = dec_val build + 1
           \<and> length r = max 4 (length (digits_of (dec_val build + 1)))
           \<and> (build = ''9999'' \<longrightarrow> r = ''10000'')"
proof -
  let ?r = "zero_pad 4 (digits_of (dec_val build + 1))"
  obtain major minor patch where t: "t = (major, minor, patch)" by (cases t) auto
  have "py_int build = Some (int (dec_val build))"
    using assms(3,4) by (simp add: py_int_digits)
  moreover have "format_04d (int (dec_val build) + 1) = ?r"
    using format_04d_nat [of "dec_val build + 1"] by (simp add: add.commute)
  ultimately have 1: "bump_version ''build'' w = Inr (version, ?r)"
    using assms(1,2) t by (simp add: bump_version_def)
  have 2: "list_all is_digit ?r" by (simp add: zero_pad_digits digits_of_digits)
  have 3: "dec_val ?r = dec_val build + 1"
    by (simp add: zero_pad_def dec_val_zeros dec_val_digits_of)
  have 4: "length ?r = max 4 (length (digits_of (dec_val build + 1)))"
    by (rule length_zero_pad)
  have "dec_val ''9999'' = 9999" by (simp add: dec_val_def digit_val_def)
  then have "zero_pad 4 (digits_of (dec_val ''9999'' + 1)) = ''10000''"
    by (simp add: zero_pad_def digits_of.simps digit_char_def)
  then have 5: "build = ''9999'' \<longrightarrow> ?r = ''10000''" by simp
  show ?thesis using 1 2 3 4 5 by blast
qed

theorem bump_version_build_witness:
  "get_current_version (only_version_rs (version_rs_text ''0.2.6'' ''9999'')) = Inr (''0.2.6'', ''9999'')
   \<and> parse_version ''0.2.6'' = Inr (0, 2, 6)
   \<and> bump_version ''build'' (only_version_rs (version_rs_text ''0.2.6'' ''9999'')) = Inr (''0.2.6'', ''10000'')"
proof -
  have g: "get_current_version (only_version_rs (version_rs_text ''0.2.6'' ''9999'')) = Inr (''0.2.6'', ''9999'')"
    by code_simp
  have p: "parse_version ''0.2.6'' = Inr (0, 2, 6)" by code_simp
  have n: "''9999'' \<noteq> []" by simp
  have d: "list_all is_digit ''9999''" by code_simp
  show ?thesis using bump_version_build [OF g p n d] g p by auto
qed

text \<open>
  Claim C2 as stated fails for a stored version that does not parse: with the version
  \<^verbatim>\<open>"1.2"\<close> and the build \<^verbatim>\<open>"0001"\<close> stored, \<open>bump_version\<close> for \<^verbatim>\<open>"build"\<close> raises the
  format error, since the stored version is parsed before the bump type is looked at.
\<close>

theorem build_bump_malformed_version_counterexample:
  "get_current_version (only_version_rs (version_rs_text ''1.2'' ''0001'')) = Inr (''1.2'', ''0001'')
   \<and> list_all is_digit ''0001''
   \<and> bump_version ''build'' (only_version_rs (version_rs_text ''1.2'' ''0001''))
       = Inl (InvalidVersionFormat ''1.2'')"
  by code_simp

text \<open>
  Claim C9, as amended. For a bump type outside the four values, \<open>bump_version\<close>
  raises an error, and \<open>bump\<close> ends with that error in the state it started from:
  nothing is written and nothing is printed. The error is the one of the invalid bump
  type exactly when the stored pair can be read and the stored version is parsed;
  otherwise it is the error of reading or parsing, which comes first.
\<close>

theorem bump_version_invalid_type:
  assumes "bump_type \<notin> {''major'', ''minor'', ''patch'', ''build''}"
  shows "\<exists>e. bump_version bump_type w = Inl e
           \<and> bump bump_type w = (Some e, w)
           \<and> (e = InvalidBumpType bump_type
                \<longleftrightarrow> (\<exists>version build t. get_current_version w = Inr (version, build)
                                          \<and> parse_version version = Inr t))"
proof (cases "get_current_version w")
  case (Inl e)
  then have "e \<noteq> InvalidBumpType bump_type"
    using get_current_version_errors by auto
  then show ?thesis using Inl by (simp add: bump_version_def bump_def)
next
  case (Inr vb)
  obtain version build where vb: "vb = (version, build)" by (cases vb) auto
  have g: "get_current_version w = Inr (version, build)" using Inr vb by simp
  show ?thesis
  proof (cases "parse_version version")
    case (Inl e)
    then have "bump_version bump_type w = Inl e" using g by (simp add: bump_version_def)
    moreover have "e \<noteq> InvalidBumpType bump_type"
      using Inl by (auto simp: parse_version_def Let_def split: if_splits option.splits)
    ultimately show ?thesis using g Inl by (simp add: bump_def)
  next
    case (Inr t)
    obtain major minor patch where t: "t = (major, minor, patch)" by (cases t) auto
    have "bump_version bump_type w = Inl (InvalidBumpType bump_type)"
      using g Inr t assms by (simp add: bump_version_def)
    then show ?thesis using g Inr t by (simp add: bump_def)
  qed
qed

theorem bump_version_invalid_type_witness:
  "''release'' \<notin> {''major'', ''minor'', ''patch'', ''build''}
   \<and> bump_version ''release'' (only_version_rs (version_rs_text ''0.2.6'' ''0007''))
       = Inl (InvalidBumpType ''release'')
   \<and> bump ''release'' (only_version_rs (version_rs_text ''0.2.6'' ''0007''))
       = (Some (InvalidBumpType ''release''), only_version_rs (version_rs_text ''0.2.6'' ''0007''))"
proof -
  have n: "''release'' \<notin> {''major'', ''minor'', ''patch'', ''build''}" by simp
  have g: "get_current_version (only_version_rs (version_rs_text ''0.2.6'' ''0007'')) = Inr (''0.2.6'', ''0007'')"
    by code_simp
  have p: "parse_version ''0.2.6'' = Inr (0, 2, 6)" by code_simp
  show ?thesis
    using bump_version_invalid_type [OF n, of "only_version_rs (version_rs_text ''0.2.6'' ''0007'')"] n g p
    by auto
qed

text \<open>
  Claim C9 as stated fails when \<^verbatim>\<open>version.rs\<close> does not hold the declarations: the
  error is then the one of \<open>get_current_version\<close>, not the one of the bump type.
\<close>

theorem invalid_type_other_error_counterexample:
  "''release'' \<notin> {''major'', ''minor'', ''patch'', ''build''}
   \<and> bump_version ''release'' (only_version_rs ''// no version here'') = Inl CouldNotParseVersion
   \<and> CouldNotParseVersion \<noteq> InvalidBumpType ''release''"
  by code_simp

section \<open>Substitution without a match\<close>








section \<open>The strings that \<open>bump_version\<close> returns\<close>

lemma int_char_not_backslash: "int_char c \<Longrightarrow> c \<noteq> backslash"
  by (auto simp: int_char_def is_digit_def int_space_def backslash_def)

lemma parse_version_no_backslash:
  assumes "parse_version v = Inr t"
  shows "backslash \<notin> set v"
proof
  assume b: "backslash \<in> set v"
  obtain a b' c where t: "t = (a, b', c)" by (cases t) auto
  obtain p q r where pqr: "str_split CHR ''.'' v = [p, q, r]"
    and ints: "py_int p = Some a" "py_int q = Some b'" "py_int r = Some c"
    using parse_version_parts [of v a b' c] assms t by blast
  have "set v \<subseteq> insert CHR ''.'' (set p \<union> set q \<union> set r)"
    using set_str_split [of v "CHR ''.''"] pqr by auto
  moreover have "backslash \<noteq> CHR ''.''" by (simp add: backslash_def)
  ultimately have "backslash \<in> set p \<union> set q \<union> set r" using b by auto
  then have "int_char backslash"
    using py_int_chars [OF ints(1)] py_int_chars [OF ints(2)] py_int_chars [OF ints(3)] by auto
  then show False using int_char_not_backslash by blast
qed

lemma format_version_no_backslash: "backslash \<notin> set (format_version a b c)"
proof -
  have "backslash \<noteq> CHR ''.''" by (simp add: backslash_def)
  then show ?thesis by (simp add: format_version_def backslash_notin_str_int)
qed

lemma format_04d_no_backslash: "backslash \<notin> set (format_04d i)"
proof -
  have "backslash \<noteq> CHR ''0''" "backslash \<noteq> CHR ''-''" by (simp_all add: backslash_def)
  then show ?thesis
    using backslash_notin_digits_of by (auto simp: format_04d_def zero_pad_def)
qed

lemma bump_version_cases:
  assumes "bump_version bump_type w = Inr (new_version, new_build)"
  shows "\<exists>version build major minor patch.
           get_current_version w = Inr (version, build)
         \<and> parse_version version = Inr (major, minor, patch)
         \<and> (bump_type = ''major'' \<and> new_version = format_version (major + 1) 0 0 \<and> new_build = ''0001''
            \<or> bump_type = ''minor'' \<and> new_version = format_version major (minor + 1) 0 \<and> new_build = ''0001''
            \<or> bump_type = ''patch'' \<and> new_version = format_version major minor (patch + 1) \<and> new_build = ''0001''
            \<or> bump_type = ''build'' \<and> new_version = version
                \<and> (\<exists>n. py_int build = Some n \<and> new_build = format_04d (n + 1)))"
  using assms
  by (auto simp: bump_version_def split: sum.splits prod.splits if_splits option.splits)

lemma bump_version_no_backslash:
  assumes "bump_version bump_type w = Inr (new_version, new_build)"
  shows "backslash \<notin> set new_version \<and> backslash \<notin> set new_build"
proof -
  have "backslash \<notin> set ''0001''" by (simp add: backslash_def)
  then show ?thesis
    using bump_version_cases [OF assms] parse_version_no_backslash format_version_no_backslash
      format_04d_no_backslash
    by (elim exE conjE disjE) auto
qed

lemma bump_version_changes_version:
  assumes "bump_version bump_type w = Inr (new_version, new_build)"
    and "get_current_version w = Inr (old_version, old_build)"
  shows "new_version = old_version \<longleftrightarrow> bump_type = ''build''"
proof -
  obtain major minor patch where p: "parse_version old_version = Inr (major, minor, patch)"
    and c: "bump_type = ''major'' \<and> new_version = format_version (major + 1) 0 0
            \<or> bump_type = ''minor'' \<and> new_version = format_version major (minor + 1) 0
            \<or> bump_type = ''patch'' \<and> new_version = format_version major minor (patch + 1)
            \<or> bump_type = ''build'' \<and> new_version = old_version"
    using bump_version_cases [OF assms(1)] assms(2) by auto
  have "format_version a b c' \<noteq> old_version" if "(a, b, c') \<noteq> (major, minor, patch)" for a b c'
    using parse_version_format_version [of a b c'] p that by auto
  then have "format_version (major + 1) 0 0 \<noteq> old_version"
    "format_version major (minor + 1) 0 \<noteq> old_version"
    "format_version major minor (patch + 1) \<noteq> old_version"
    by simp_all
  then show ?thesis using c by auto
qed

section \<open>The run of \<open>bump\<close>\<close>

lemma written_append: "written (es @ fs) = written es @ written fs"
  by (induction es rule: written.induct) auto

lemma get_current_version_file:
  "get_current_version w = Inr vb \<Longrightarrow> files w VersionRs \<noteq> None"
  by (auto simp: get_current_version_def read_text_def split: option.splits)

lemma update_version_rs_ok:
  assumes "files w VersionRs \<noteq> None" and "backslash \<notin> set version" and "backslash \<notin> set build"
  shows "\<exists>content. update_version_rs version build w
           = Inr (print (Updated VersionRs) (write_text VersionRs content w))"
proof -
  have "backslash \<notin> set (''pub const VERSION: &str = '' @ [dquote] @ version @ [dquote])"
    "backslash \<notin> set (''pub const BUILD: &str = '' @ [dquote] @ build @ [dquote])"
    using assms(2,3) by (simp_all add: backslash_def dquote_def)
  then show ?thesis using assms(1)
    by (auto simp: update_version_rs_def read_text_def re_sub_def)
qed

lemma update_cargo_toml_ok:
  assumes "files w CargoToml \<noteq> None" and "backslash \<notin> set version"
  shows "\<exists>content. update_cargo_toml version w
           = Inr (print (Updated CargoToml) (write_text CargoToml content w))"
proof -
  have "backslash \<notin> set (''version = '' @ [dquote] @ version @ [dquote])"
    using assms(2) by (simp add: backslash_def dquote_def)
  then show ?thesis using assms(1)
    by (auto simp: update_cargo_toml_def read_text_def re_sub_def)
qed

lemma update_version_md_result:
  "(\<exists>e. update_version_md version build w = Inl e)
   \<or> (\<exists>content. update_version_md version build w
          = Inr (print (Updated VersionMd) (write_text VersionMd content w)))"
  by (auto simp: update_version_md_def split: sum.splits)

lemma files_print: "files (print m w) = files w"
  by (simp add: print_def)

lemma trace_print: "trace (print m w) = trace w @ [Print m]"
  by (simp add: print_def)

lemma files_write_text: "files (write_text f content w) = (files w)(f \<mapsto> content)"
  by (simp add: write_text_def)

lemma trace_write_text: "trace (write_text f content w) = trace w @ [Write f content]"
  by (simp add: write_text_def)

lemma files_written_append:
  "trace w' = trace w @ es \<Longrightarrow> files_written w w' = written es"
  by (simp add: files_written_def)

lemma bump_events:
  assumes g: "get_current_version w = Inr (old_version, old_build)"
    and b: "bump_version bump_type w = Inr (new_version, new_build)"
    and c: "files w CargoToml \<noteq> None"
  shows "\<exists>md_part.
           files_written w (snd (bump bump_type w))
             = VersionRs # (if new_version \<noteq> old_version then [CargoToml] else []) @ md_part
         \<and> set md_part \<subseteq> {VersionMd}
         \<and> (new_version = old_version
              \<longrightarrow> files (snd (bump bump_type w)) CargoToml = files w CargoToml)"
proof -
  define w1 where "w1 = print (NewLine new_version new_build)
      (print (OldLine old_version old_build) (print (BumpHeader bump_type) w))"
  have f1: "files w1 = files w"
    by (simp add: w1_def files_print)
  have t1: "trace w1 = trace w @ [Print (BumpHeader bump_type),
        Print (OldLine old_version old_build), Print (NewLine new_version new_build)]"
    by (simp add: w1_def trace_print)
  have nb: "backslash \<notin> set new_version" "backslash \<notin> set new_build"
    using bump_version_no_backslash [OF b] by simp_all
  have "files w1 VersionRs \<noteq> None" using get_current_version_file [OF g] f1 by simp
  then obtain c2 where "update_version_rs new_version new_build w1
      = Inr (print (Updated VersionRs) (write_text VersionRs c2 w1))"
    using update_version_rs_ok [of w1 new_version new_build] nb by blast
  moreover define w2 where "w2 = print (Updated VersionRs) (write_text VersionRs c2 w1)"
  ultimately have u2: "update_version_rs new_version new_build w1 = Inr w2" by simp
  have f2: "files w2 = (files w)(VersionRs \<mapsto> c2)"
    by (simp add: w2_def files_print files_write_text f1)
  have t2: "trace w2 = trace w1 @ [Write VersionRs c2, Print (Updated VersionRs)]"
    by (simp add: w2_def trace_print trace_write_text)
  have "files w2 CargoToml \<noteq> None" using c f2 by simp
  then obtain c3 where u3: "update_cargo_toml new_version w2
      = Inr (print (Updated CargoToml) (write_text CargoToml c3 w2))"
    using update_cargo_toml_ok [of w2 new_version] nb by blast
  define w3 where "w3 = (if new_version \<noteq> old_version
      then print (Updated CargoToml) (write_text CargoToml c3 w2) else w2)"
  have s3: "(if new_version \<noteq> old_version then update_cargo_toml new_version w2 else Inr w2) = Inr w3"
    using u3 by (simp add: w3_def)
  have f3: "new_version = old_version \<Longrightarrow> files w3 CargoToml = files w CargoToml"
    by (simp add: w3_def f2)
  have t3: "trace w3 = trace w2 @ (if new_version \<noteq> old_version
      then [Write CargoToml c3, Print (Updated CargoToml)] else [])"
    by (simp add: w3_def trace_print trace_write_text)
  have t3': "trace w3 = trace w @
        ([Print (BumpHeader bump_type), Print (OldLine old_version old_build),
          Print (NewLine new_version new_build), Write VersionRs c2, Print (Updated VersionRs)]
         @ (if new_version \<noteq> old_version
            then [Write CargoToml c3, Print (Updated CargoToml)] else []))"
    by (simp add: t1 t2 t3)
  have start: "bump bump_type w =
      (case update_version_md new_version new_build w3 of
         Inl e \<Rightarrow> (Some e, w3)
       | Inr w4 \<Rightarrow> (None, print (NextSteps new_version) (print BumpedSuccessfully w4)))"
    by (simp only: bump_def g b sum.case prod.case Let_def w1_def [symmetric] u2 s3)
  from update_version_md_result [of new_version new_build w3]
  show ?thesis
  proof
    assume "\<exists>e. update_version_md new_version new_build w3 = Inl e"
    then obtain e where "update_version_md new_version new_build w3 = Inl e" by blast
    then have r: "snd (bump bump_type w) = w3" by (simp add: start)
    have "files_written w (snd (bump bump_type w))
        = VersionRs # (if new_version \<noteq> old_version then [CargoToml] else []) @ []"
      by (simp add: r files_written_append [OF t3'] written_append)
    moreover have "set ([] :: path list) \<subseteq> {VersionMd}" by simp
    moreover have "new_version = old_version
            \<longrightarrow> files (snd (bump bump_type w)) CargoToml = files w CargoToml"
      using f3 by (simp add: r)
    ultimately show ?thesis by (intro exI [of _ "[]"]) simp
  next
    assume "\<exists>content. update_version_md new_version new_build w3
        = Inr (print (Updated VersionMd) (write_text VersionMd content w3))"
    then obtain c4 where "update_version_md new_version new_build w3
        = Inr (print (Updated VersionMd) (write_text VersionMd c4 w3))" by blast
    then have r: "snd (bump bump_type w) = print (NextSteps new_version)
        (print BumpedSuccessfully (print (Updated VersionMd) (write_text VersionMd c4 w3)))"
      by (simp add: start)
    have t4: "trace (snd (bump bump_type w)) = trace w @
        (([Print (BumpHeader bump_type), Print (OldLine old_version old_build),
          Print (NewLine new_version new_build), Write VersionRs c2, Print (Updated VersionRs)]
         @ (if new_version \<noteq> old_version
            then [Write CargoToml c3, Print (Updated CargoToml)] else []))
         @ [Write VersionMd c4, Print (Updated VersionMd), Print BumpedSuccessfully,
            Print (NextSteps new_version)])"
      by (simp add: r trace_print trace_write_text t3')
    have "files_written w (snd (bump bump_type w))
        = VersionRs # (if new_version \<noteq> old_version then [CargoToml] else []) @ [VersionMd]"
      by (simp add: files_written_append [OF t4] written_append)
    moreover have "new_version = old_version
            \<longrightarrow> files (snd (bump bump_type w)) CargoToml = files w CargoToml"
      using f3 by (simp add: r files_print files_write_text)
    ultimately show ?thesis by (intro exI [of _ "[VersionMd]"]) simp
  qed
qed

text \<open>
  Claim C3. In a run of \<open>bump\<close> that has read the old pair and computed the new one,
  with a manifest that exists (\<^verbatim>\<open>main\<close> stops before, when it does not), the manifest
  is among the files written exactly when the new version string differs from the
  old one; when they are equal the manifest keeps its text. For \<^verbatim>\<open>"build"\<close> the two are
  equal, for \<^verbatim>\<open>"major"\<close>, \<^verbatim>\<open>"minor"\<close> and \<^verbatim>\<open>"patch"\<close> they differ.
\<close>

theorem bump_manifest_written_iff:
  assumes "get_current_version w = Inr (old_version, old_build)"
    and "bump_version bump_type w = Inr (new_version, new_build)"
    and "files w CargoToml \<noteq> None"
  shows "(CargoToml \<in> set (files_written w (snd (bump bump_type w))) \<longleftrightarrow> new_version \<noteq> old_version)
       \<and> (new_version = old_version \<longrightarrow> files (snd (bump bump_type w)) CargoToml = files w CargoToml)
       \<and> (bump_type = ''build'' \<longrightarrow> new_version = old_version)
       \<and> (bump_type \<in> {''major'', ''minor'', ''patch''} \<longrightarrow> new_version \<noteq> old_version)"
proof -
  obtain md_part where wr: "files_written w (snd (bump bump_type w))
        = VersionRs # (if new_version \<noteq> old_version then [CargoToml] else []) @ md_part"
    and md: "set md_part \<subseteq> {VersionMd}"
    and fr: "new_version = old_version \<longrightarrow> files (snd (bump bump_type w)) CargoToml = files w CargoToml"
    using bump_events [OF assms] by blast
  have 1: "CargoToml \<in> set (files_written w (snd (bump bump_type w))) \<longleftrightarrow> new_version \<noteq> old_version"
    using md by (auto simp: wr)
  have 2: "new_version = old_version \<longleftrightarrow> bump_type = ''build''"
    using bump_version_changes_version [OF assms(2,1)] .
  have 3: "bump_type \<in> {''major'', ''minor'', ''patch''} \<longrightarrow> bump_type \<noteq> ''build''"
    by auto
  show ?thesis using 1 2 3 fr by blast
qed

theorem bump_manifest_written_iff_witness:
  "get_current_version sample_state = Inr (''0.2.6'', ''0007'')
   \<and> files sample_state CargoToml \<noteq> None
   \<and> bump_version ''patch'' sample_state = Inr (''0.2.7'', ''0001'')
   \<and> CargoToml \<in> set (files_written sample_state (snd (bump ''patch'' sample_state)))
   \<and> bump_version ''build'' sample_state = Inr (''0.2.6'', ''0008'')
   \<and> CargoToml \<notin> set (files_written sample_state (snd (bump ''build'' sample_state)))
   \<and> files (snd (bump ''build'' sample_state)) CargoToml = files sample_state CargoToml"
proof -
  have g: "get_current_version sample_state = Inr (''0.2.6'', ''0007'')" by code_simp
  have c: "files sample_state CargoToml \<noteq> None" by (simp add: sample_state_def state_of_def)
  have p: "bump_version ''patch'' sample_state = Inr (''0.2.7'', ''0001'')" by code_simp
  have b: "bump_version ''build'' sample_state = Inr (''0.2.6'', ''0008'')" by code_simp
  show ?thesis
    using bump_manifest_written_iff [OF g p c] bump_manifest_written_iff [OF g b c] g c p b
    by simp
qed

end
